theory Spec2Isabelle
  imports Complex_Main "HOL-Library.FSet"
begin

section \<open>Set overlap metrics of \<open>ssi/analysis/overlap.py\<close>\<close>

text \<open>
  Python sets are finite, so a set is an \<open>'a fset\<close>; an argument that may be \<open>None\<close> is
  an \<open>'a fset option\<close>. \<open>len\<close> returns an unbounded integer. A Python float is modelled
  by the exact rational it stands for (the rounding of IEEE doubles is not modelled), and
  every exception the code can raise is a value of type \<open>error\<close>.
\<close>

datatype error = ZeroDivisionError | KeyError | IndexError | AttributeError | TypeError

definition len :: "'a fset \<Rightarrow> int" where
  "len s = int (fcard s)"

text \<open>Python's true division \<open>a / b\<close>: raises on a zero divisor.\<close>

definition truediv :: "rat \<Rightarrow> rat \<Rightarrow> error + rat" where
  "truediv a b = (if b = 0 then Inl ZeroDivisionError else Inr (a / b))"

text \<open>
  \<open>set() if not s else s\<close>: \<open>None\<close> and the empty set are falsy and give a fresh
  empty set, any other set is kept.
\<close>

definition or_empty :: "'a fset option \<Rightarrow> 'a fset" where
  "or_empty s = (case s of None \<Rightarrow> {||} | Some x \<Rightarrow> if len x = 0 then {||} else x)"

definition handle_missing_sets :: "'a fset option \<Rightarrow> 'a fset option \<Rightarrow> 'a fset \<times> 'a fset" where
  "handle_missing_sets left_set right_set = (or_empty left_set, or_empty right_set)"

definition handle_zero_length_sets ::
  "'a fset option \<Rightarrow> 'a fset option \<Rightarrow> ('a fset \<Rightarrow> 'a fset \<Rightarrow> error + rat) \<Rightarrow> rat \<Rightarrow> rat
     \<Rightarrow> error + rat" where
  "handle_zero_length_sets left_set right_set overlap_function default_exact_match
       default_empty_match =
     (case handle_missing_sets left_set right_set of (l, r) \<Rightarrow>
        if len l = 0 \<and> len r = 0 then Inr default_exact_match
        else if l = r then Inr default_exact_match
        else if len l = 0 \<or> len r = 0 then Inr default_empty_match
        else overlap_function l r)"

text \<open>The inner \<open>overlap_function\<close> of each metric, named after the metric it belongs to.\<close>

definition jaccard_similarity_core :: "'a fset \<Rightarrow> 'a fset \<Rightarrow> error + rat" where
  "jaccard_similarity_core l r =
     truediv (of_int (len (l |\<inter>| r))) (of_int (len (l |\<union>| r)))"

definition jaccard_index_core :: "'a fset \<Rightarrow> 'a fset \<Rightarrow> error + rat" where
  "jaccard_index_core l r =
     (let intersection = len (l |\<inter>| r);
          union = len l + len r - intersection
      in truediv (of_int intersection) (of_int union))"

definition dice_coefficient_core :: "'a fset \<Rightarrow> 'a fset \<Rightarrow> error + rat" where
  "dice_coefficient_core l r =
     (let intersection = len (l |\<inter>| r)
      in truediv (2 * of_int intersection) (of_int (len l + len r)))"

definition overlap_coefficient_core :: "'a fset \<Rightarrow> 'a fset \<Rightarrow> error + rat" where
  "overlap_coefficient_core l r =
     (let intersection = len (l |\<inter>| r);
          min_length = min (len l) (len r)
      in truediv (of_int intersection) (of_int min_length))"

definition percentage_overlap_core :: "'a fset \<Rightarrow> 'a fset \<Rightarrow> error + rat" where
  "percentage_overlap_core l r =
     (let intersection = len (l |\<inter>| r)
      in truediv (of_int intersection) (of_int (len l + len r)))"

text \<open>The metrics call the dispatch with its default values \<open>1.0\<close> and \<open>0.0\<close>.\<close>

definition jaccard_similarity :: "'a fset option \<Rightarrow> 'a fset option \<Rightarrow> error + rat" where
  "jaccard_similarity left_set right_set =
     handle_zero_length_sets left_set right_set jaccard_similarity_core 1 0"

definition jaccard_index :: "'a fset option \<Rightarrow> 'a fset option \<Rightarrow> error + rat" where
  "jaccard_index left_set right_set =
     handle_zero_length_sets left_set right_set jaccard_index_core 1 0"

definition dice_coefficient :: "'a fset option \<Rightarrow> 'a fset option \<Rightarrow> error + rat" where
  "dice_coefficient left_set right_set =
     handle_zero_length_sets left_set right_set dice_coefficient_core 1 0"

definition overlap_coefficient :: "'a fset option \<Rightarrow> 'a fset option \<Rightarrow> error + rat" where
  "overlap_coefficient left_set right_set =
     handle_zero_length_sets left_set right_set overlap_coefficient_core 1 0"

text \<open>\<open>percentage_overlap\<close> multiplies whatever the dispatch returns by 100.\<close>

definition percentage_overlap :: "'a fset option \<Rightarrow> 'a fset option \<Rightarrow> error + rat" where
  "percentage_overlap left_set right_set =
     (case handle_zero_length_sets left_set right_set percentage_overlap_core 1 0 of
        Inl e \<Rightarrow> Inl e
      | Inr v \<Rightarrow> Inr (v * 100))"

text \<open>
  \<open>asymmetrical_overlap\<close> calls \<open>left_set.intersection(right_set)\<close> at once: on a missing
  left set the attribute lookup fails, on a missing right set the iteration over it does.
\<close>

definition asymmetrical_overlap :: "'a fset option \<Rightarrow> 'a fset option \<Rightarrow> error + rat" where
  "asymmetrical_overlap left_set right_set =
     (case left_set of
        None \<Rightarrow> Inl AttributeError
      | Some l \<Rightarrow>
          (case right_set of
             None \<Rightarrow> Inl TypeError
           | Some r \<Rightarrow>
               (let overlap = l |\<inter>| r
                in truediv (of_int (len overlap)) (of_int (len l)))))"

section \<open>The pairwise overlap matrix\<close>

text \<open>
  A pandas data frame is modelled by its columns: a map from column labels to the list of
  the column's values (in pandas all columns of a frame have the same length).
  \<open>frame[label]\<close> raises \<open>KeyError\<close> on an unknown label, \<open>values[0]\<close> raises
  \<open>IndexError\<close> on an empty column, and so does indexing a list out of range.
\<close>

type_synonym 'v frame = "string \<rightharpoonup> 'v list"

definition getitem :: "'v frame \<Rightarrow> string \<Rightarrow> error + 'v list" where
  "getitem frame label = (case frame label of None \<Rightarrow> Inl KeyError | Some col \<Rightarrow> Inr col)"

definition first_value :: "'v list \<Rightarrow> error + 'v" where
  "first_value col = (case col of [] \<Rightarrow> Inl IndexError | v # _ \<Rightarrow> Inr v)"

definition list_getitem :: "'a list \<Rightarrow> nat \<Rightarrow> error + 'a" where
  "list_getitem xs i = (if i < length xs then Inr (xs ! i) else Inl IndexError)"

text \<open>
  \<open>[store[store_id_column].values[0] for store in store_data]\<close>: the comprehension stops at
  the first store that raises.
\<close>

fun store_names_of :: "'v frame list \<Rightarrow> string \<Rightarrow> error + 'v list" where
  "store_names_of [] store_id_column = Inr []"
| "store_names_of (store # rest) store_id_column =
     (case getitem store store_id_column of
        Inl e \<Rightarrow> Inl e
      | Inr col \<Rightarrow>
          (case first_value col of
             Inl e \<Rightarrow> Inl e
           | Inr name \<Rightarrow>
               (case store_names_of rest store_id_column of
                  Inl e \<Rightarrow> Inl e
                | Inr names \<Rightarrow> Inr (name # names))))"

text \<open>
  A \<open>for\<close> loop over a list of indices whose body may raise: the loop stops at the first
  exception.
\<close>

fun for_loop :: "nat list \<Rightarrow> (nat \<Rightarrow> 's \<Rightarrow> error + 's) \<Rightarrow> 's \<Rightarrow> error + 's" where
  "for_loop [] body s = Inr s"
| "for_loop (i # rest) body s =
     (case body i s of Inl e \<Rightarrow> Inl e | Inr s' \<Rightarrow> for_loop rest body s')"

text \<open>
  The values of a (preprocessed) column are ordinary values or, in a float column, NaN.
  \<open>set(series.values)\<close> makes a Python object for every value it reads. Objects made
  from ordinary values are the same set element when the values are equal. A NaN is not
  equal to itself, so the object made from a NaN cell is a set element of its own: it is
  equal to no object made from another cell and to no object made by another read.

  Only the equality of objects can be observed, so a NaN object is named by the store
  and the position it was read from. A diagonal cell of the matrix reads the same store
  twice; the objects of the second read are new ones and carry the mark \<open>True\<close>. The
  two sets of a cell are dropped once the cell is computed, so objects made for different
  cells are never compared and may share a name. (A NaN that a column of Python objects
  holds as one shared object is equal to itself by identity and counts as an ordinary
  value.)
\<close>

datatype 'a cell = Val 'a | NaN

datatype 'a obj = Obj 'a | NaNObj nat nat bool

fun object_of :: "nat \<Rightarrow> bool \<Rightarrow> nat \<times> 'a cell \<Rightarrow> 'a obj" where
  "object_of store again (position, Val x) = Obj x"
| "object_of store again (position, NaN) = NaNObj store position again"

definition set_of_values :: "nat \<Rightarrow> bool \<Rightarrow> 'a cell list \<Rightarrow> 'a obj fset" where
  "set_of_values store again vals =
     fset_of_list (map (object_of store again) (enumerate 0 vals))"

text \<open>
  The array made by \<open>np.empty\<close> holds no defined value in any cell: the matrix is a map from
  index pairs to the values written so far, and \<open>None\<close> is a cell never written.
\<close>

type_synonym matrix = "nat \<times> nat \<rightharpoonup> rat"

text \<open>
  The value computed in the body of the inner loop (lines 366 to 374): the two stores, the
  sets of their preprocessed product columns, each made by its own call of \<open>set\<close>, and the
  overlap of the two sets. The optional progress bar only reports and is left out.
\<close>

definition pair_overlap ::
  "'v frame list \<Rightarrow> string \<Rightarrow> ('w obj fset option \<Rightarrow> 'w obj fset option \<Rightarrow> error + rat)
     \<Rightarrow> ('v list \<Rightarrow> 'w cell list) \<Rightarrow> nat \<Rightarrow> nat \<Rightarrow> error + rat" where
  "pair_overlap store_data product_id_column overlap_function preprocess_function
       row_index column_index =
     (case list_getitem store_data row_index of
        Inl e \<Rightarrow> Inl e
      | Inr store1 \<Rightarrow>
     (case list_getitem store_data column_index of
        Inl e \<Rightarrow> Inl e
      | Inr store2 \<Rightarrow>
     (case getitem store1 product_id_column of
        Inl e \<Rightarrow> Inl e
      | Inr col1 \<Rightarrow>
     (case getitem store2 product_id_column of
        Inl e \<Rightarrow> Inl e
      | Inr col2 \<Rightarrow>
          (let store1_set = set_of_values row_index False (preprocess_function col1);
               store2_set = set_of_values column_index (column_index = row_index)
                              (preprocess_function col2)
           in overlap_function (Some store1_set) (Some store2_set))))))"

text \<open>The body of the inner loop: the overlap is written to the cell and to its mirror.\<close>

definition cell_step ::
  "'v frame list \<Rightarrow> string \<Rightarrow> ('w obj fset option \<Rightarrow> 'w obj fset option \<Rightarrow> error + rat)
     \<Rightarrow> ('v list \<Rightarrow> 'w cell list) \<Rightarrow> nat \<Rightarrow> nat \<Rightarrow> matrix \<Rightarrow> error + matrix" where
  "cell_step store_data product_id_column overlap_function preprocess_function
       row_index column_index store_overlap =
     (case pair_overlap store_data product_id_column overlap_function preprocess_function
             row_index column_index of
        Inl e \<Rightarrow> Inl e
      | Inr overlap \<Rightarrow>
          Inr (store_overlap((row_index, column_index) \<mapsto> overlap,
                             (column_index, row_index) \<mapsto> overlap)))"

text \<open>The body of the outer loop: the inner loop over the columns of one row.\<close>

definition row_step ::
  "'v frame list \<Rightarrow> string \<Rightarrow> ('w obj fset option \<Rightarrow> 'w obj fset option \<Rightarrow> error + rat)
     \<Rightarrow> ('v list \<Rightarrow> 'w cell list) \<Rightarrow> bool \<Rightarrow> nat \<Rightarrow> matrix \<Rightarrow> error + matrix" where
  "row_step store_data product_id_column overlap_function preprocess_function
       calculate_all_cells row_index store_overlap =
     (let column_start_index = (if \<not> calculate_all_cells then row_index else 0)
      in for_loop [column_start_index ..< length store_data]
           (cell_step store_data product_id_column overlap_function preprocess_function
              row_index)
           store_overlap)"

text \<open>The returned data frame: its row labels, its column labels and its cells.\<close>

record 'v overlap_frame =
  index :: "'v list"
  columns :: "'v list"
  cells :: matrix

definition calculate_overlap_for_stores ::
  "'v frame list \<Rightarrow> string \<Rightarrow> string
     \<Rightarrow> ('w obj fset option \<Rightarrow> 'w obj fset option \<Rightarrow> error + rat)
     \<Rightarrow> ('v list \<Rightarrow> 'w cell list) \<Rightarrow> bool \<Rightarrow> error + 'v overlap_frame" where
  "calculate_overlap_for_stores store_data store_id_column product_id_column
       overlap_function preprocess_function calculate_all_cells =
     (case store_names_of store_data store_id_column of
        Inl e \<Rightarrow> Inl e
      | Inr store_names \<Rightarrow>
          (case for_loop [0 ..< length store_data]
                  (row_step store_data product_id_column overlap_function
                     preprocess_function calculate_all_cells)
                  Map.empty of
             Inl e \<Rightarrow> Inl e
           | Inr store_overlap \<Rightarrow>
               Inr \<lparr>index = store_names, columns = store_names, cells = store_overlap\<rparr>))"

section \<open>Properties of the metrics\<close>

subsection \<open>Cardinalities, the dispatch and the core formulas\<close>

lemma len_eq_0 [simp]: "len s = 0 \<longleftrightarrow> s = {||}"
  by (simp add: len_def)

lemma len_nonneg [simp]: "0 \<le> len s"
  by (simp add: len_def)

lemma or_empty_simps [simp]:
  "or_empty None = {||}" "or_empty (Some A) = A"
  by (simp_all add: or_empty_def)

lemma dispatch_eq:
  "handle_zero_length_sets l r f d1 d0 =
     (if or_empty l = or_empty r then Inr d1
      else if or_empty l = {||} \<or> or_empty r = {||} then Inr d0
      else f (or_empty l) (or_empty r))"
  by (auto simp: handle_zero_length_sets_def handle_missing_sets_def)

lemma len_union: "len (A |\<union>| B) = len A + len B - len (A |\<inter>| B)"
  using fcard_funion_finter [of A B] by (simp add: len_def)

lemma len_pos: "A \<noteq> {||} \<Longrightarrow> 0 < len A"
  by (simp add: len_def) (metis fcard_0_eq gr0I)

lemma len_inter_le: "len (A |\<inter>| B) \<le> len A" "len (A |\<inter>| B) \<le> len B"
  by (simp_all add: len_def fcard_mono)

lemma jaccard_cores_eq: "jaccard_similarity_core A B = jaccard_index_core A B"
  by (simp add: jaccard_similarity_core_def jaccard_index_core_def Let_def len_union)

lemma core_values:
  assumes "A \<noteq> {||}" "B \<noteq> {||}"
  shows "jaccard_similarity_core A B = Inr (of_int (len (A |\<inter>| B)) / of_int (len (A |\<union>| B)))"
    and "jaccard_index_core A B = Inr (of_int (len (A |\<inter>| B)) / of_int (len A + len B - len (A |\<inter>| B)))"
    and "dice_coefficient_core A B = Inr (2 * of_int (len (A |\<inter>| B)) / of_int (len A + len B))"
    and "overlap_coefficient_core A B = Inr (of_int (len (A |\<inter>| B)) / of_int (min (len A) (len B)))"
    and "percentage_overlap_core A B = Inr (of_int (len (A |\<inter>| B)) / of_int (len A + len B))"
  using assms len_pos[of A] len_pos[of B] len_inter_le[of A B]
  by (auto simp: jaccard_similarity_core_def jaccard_index_core_def dice_coefficient_core_def
      overlap_coefficient_core_def percentage_overlap_core_def truediv_def Let_def)

lemma cores_sym:
  "jaccard_similarity_core A B = jaccard_similarity_core B A"
  "jaccard_index_core A B = jaccard_index_core B A"
  "dice_coefficient_core A B = dice_coefficient_core B A"
  "overlap_coefficient_core A B = overlap_coefficient_core B A"
  "percentage_overlap_core A B = percentage_overlap_core B A"
  by (simp_all add: jaccard_similarity_core_def jaccard_index_core_def dice_coefficient_core_def
      overlap_coefficient_core_def percentage_overlap_core_def Let_def
      finter_commute funion_commute add.commute min.commute)


lemma dispatch_Inr:
  assumes "\<And>A B. A \<noteq> {||} \<Longrightarrow> B \<noteq> {||} \<Longrightarrow> \<exists>v. f A B = Inr v"
  shows "\<exists>v. handle_zero_length_sets l r f d1 d0 = Inr v"
  using assms by (simp add: dispatch_eq)

lemma fset123_ne_234: "{|1::int, 2, 3|} \<noteq> {|2, 3, 4|}"
  by (simp add: fset_eq_iff) (rule exI [of _ 1], simp)

lemma fset123_ne_23: "{|1::int, 2, 3|} \<noteq> {|2, 3|}"
  by (simp add: fset_eq_iff) (rule exI [of _ 1], simp)

text \<open>
  Claim C1 says that every symmetric metric returns the default exact-match value \<open>1.0\<close>
  when both sets are empty. \<open>percentage_overlap\<close> does not: it multiplies the value the
  dispatch returns by 100, so two empty sets score \<open>100.0\<close>.
\<close>

theorem percentage_overlap_empty_empty:
  "percentage_overlap (Some ({||} :: int fset)) (Some {||}) = Inr 100 \<and>
   percentage_overlap (Some ({||} :: int fset)) (Some {||}) \<noteq> Inr 1"
  by (simp add: percentage_overlap_def dispatch_eq)

text \<open>
  Claim C1, amended. With \<open>(A, B)\<close> the two inputs after \<open>handle_missing_sets\<close>, the
  dispatch returns the exact-match value when both sets are empty, else the exact-match
  value when \<open>A = B\<close>, else the empty-match value when exactly one set is empty, and only
  otherwise calls the overlap function it was given. \<open>jaccard_similarity\<close>,
  \<open>jaccard_index\<close>, \<open>dice_coefficient\<close> and \<open>overlap_coefficient\<close> return exactly that
  with the values \<open>1\<close> and \<open>0\<close> and their own core formula; \<open>percentage_overlap\<close>
  returns 100 times the dispatch result: \<open>100\<close>, \<open>100\<close>, \<open>0\<close> and 100 times its core formula.
\<close>

theorem zero_length_dispatch:
  "(case handle_missing_sets l r of (A, B) \<Rightarrow>
      handle_zero_length_sets l r f d1 d0 =
        (if A = {||} \<and> B = {||} then Inr d1
         else if A = B then Inr d1
         else if (A = {||}) \<noteq> (B = {||}) then Inr d0
         else f A B) \<and>
      jaccard_similarity l r =
        (if A = {||} \<and> B = {||} then Inr 1
         else if A = B then Inr 1
         else if (A = {||}) \<noteq> (B = {||}) then Inr 0
         else jaccard_similarity_core A B) \<and>
      jaccard_index l r =
        (if A = {||} \<and> B = {||} then Inr 1
         else if A = B then Inr 1
         else if (A = {||}) \<noteq> (B = {||}) then Inr 0
         else jaccard_index_core A B) \<and>
      dice_coefficient l r =
        (if A = {||} \<and> B = {||} then Inr 1
         else if A = B then Inr 1
         else if (A = {||}) \<noteq> (B = {||}) then Inr 0
         else dice_coefficient_core A B) \<and>
      overlap_coefficient l r =
        (if A = {||} \<and> B = {||} then Inr 1
         else if A = B then Inr 1
         else if (A = {||}) \<noteq> (B = {||}) then Inr 0
         else overlap_coefficient_core A B) \<and>
      percentage_overlap l r =
        (if A = {||} \<and> B = {||} then Inr 100
         else if A = B then Inr 100
         else if (A = {||}) \<noteq> (B = {||}) then Inr 0
         else (case percentage_overlap_core A B of
                 Inl e \<Rightarrow> Inl e
               | Inr v \<Rightarrow> Inr (v * 100))))"
  by (auto simp: handle_missing_sets_def dispatch_eq jaccard_similarity_def jaccard_index_def
      dice_coefficient_def overlap_coefficient_def percentage_overlap_def)

theorem zero_length_dispatch_witness:
  "jaccard_similarity None (Some {|1::int|}) = Inr 0 \<and>
   jaccard_index (Some {|1::int|}) (Some {|1|}) = Inr 1 \<and>
   dice_coefficient None (None :: int fset option) = Inr 1 \<and>
   overlap_coefficient (Some {|1::int|}) (Some {||}) = Inr 0 \<and>
   percentage_overlap (Some {|1::int|}) (Some {|1|}) = Inr 100"
  using zero_length_dispatch [of None "Some {|1::int|}"]
    zero_length_dispatch [of "Some {|1::int|}" "Some {|1::int|}"]
    zero_length_dispatch [of None "None :: int fset option"]
    zero_length_dispatch [of "Some {|1::int|}" "Some {||}"]
  by (simp add: handle_missing_sets_def fempty_not_finsert)

text \<open>
  Claim C2. For non-empty, unequal sets \<open>A\<close> and \<open>B\<close>, with \<open>I = |A \<inter> B|\<close>,
  \<open>U = |A \<union> B|\<close>, \<open>a = |A|\<close> and \<open>b = |B|\<close>: \<open>jaccard_similarity\<close> is \<open>I / U\<close>,
  \<open>dice_coefficient\<close> is \<open>2 I / (a + b)\<close>, \<open>overlap_coefficient\<close> is \<open>I / min a b\<close> and
  \<open>percentage_overlap\<close> is \<open>100 I / (a + b)\<close>. The instance \<open>A = {1, 2, 3}\<close>,
  \<open>B = {2, 3, 4}\<close> with the values \<open>1/2\<close>, \<open>2/3\<close>, \<open>2/3\<close> and \<open>100/3\<close> follows it.
\<close>

theorem core_formulas:
  assumes "A \<noteq> {||}" and "B \<noteq> {||}" and "A \<noteq> B"
  shows "jaccard_similarity (Some A) (Some B) =
           Inr (of_int (len (A |\<inter>| B)) / of_int (len (A |\<union>| B))) \<and>
         dice_coefficient (Some A) (Some B) =
           Inr (2 * of_int (len (A |\<inter>| B)) / of_int (len A + len B)) \<and>
         overlap_coefficient (Some A) (Some B) =
           Inr (of_int (len (A |\<inter>| B)) / of_int (min (len A) (len B))) \<and>
         percentage_overlap (Some A) (Some B) =
           Inr (100 * of_int (len (A |\<inter>| B)) / of_int (len A + len B))"
  using assms
  by (simp add: jaccard_similarity_def dice_coefficient_def overlap_coefficient_def
      percentage_overlap_def dispatch_eq core_values)

theorem core_formulas_witness:
  "{|1::int, 2, 3|} \<noteq> {||} \<and> {|2::int, 3, 4|} \<noteq> {||} \<and> {|1::int, 2, 3|} \<noteq> {|2, 3, 4|} \<and>
   jaccard_similarity (Some {|1::int, 2, 3|}) (Some {|2, 3, 4|}) = Inr (1 / 2) \<and>
   dice_coefficient (Some {|1::int, 2, 3|}) (Some {|2, 3, 4|}) = Inr (2 / 3) \<and>
   overlap_coefficient (Some {|1::int, 2, 3|}) (Some {|2, 3, 4|}) = Inr (2 / 3) \<and>
   percentage_overlap (Some {|1::int, 2, 3|}) (Some {|2, 3, 4|}) = Inr (100 / 3)"
  using core_formulas [of "{|1::int, 2, 3|}" "{|2, 3, 4|}"] fset123_ne_234
  by (simp add: len_def fcard_finsert_if fcard_fempty)

text \<open>
  Claim C3. Each of the five symmetric metrics gives the same result when its two
  arguments are swapped, for all inputs, \<open>None\<close> and the empty set included.
\<close>

theorem metrics_symmetric:
  "jaccard_similarity l r = jaccard_similarity r l \<and>
   jaccard_index l r = jaccard_index r l \<and>
   dice_coefficient l r = dice_coefficient r l \<and>
   overlap_coefficient l r = overlap_coefficient r l \<and>
   percentage_overlap l r = percentage_overlap r l"
  using cores_sym [of "or_empty l" "or_empty r"]
  by (auto simp: jaccard_similarity_def jaccard_index_def dice_coefficient_def
      overlap_coefficient_def percentage_overlap_def dispatch_eq)

text \<open>
  Claim C4. \<open>jaccard_similarity\<close> divides by \<open>|A \<union> B|\<close> and \<open>jaccard_index\<close> by
  \<open>|A| + |B| - |A \<inter> B|\<close>; the two return the same result on every pair of inputs.
\<close>

theorem jaccard_similarity_eq_jaccard_index:
  "jaccard_similarity l r = jaccard_index l r"
  by (simp add: jaccard_similarity_def jaccard_index_def dispatch_eq jaccard_cores_eq)

text \<open>
  Claim C5 says that every symmetric metric returns \<open>1.0\<close> on a set and itself.
  \<open>percentage_overlap\<close> returns \<open>100.0\<close> there, since it scales the dispatch result.
\<close>

theorem percentage_overlap_self:
  "percentage_overlap (Some {|1::int|}) (Some {|1|}) = Inr 100 \<and>
   percentage_overlap (Some {|1::int|}) (Some {|1|}) \<noteq> Inr 1"
  by (simp add: percentage_overlap_def dispatch_eq)

text \<open>
  Claim C5, amended. On a set and itself (the empty set included) \<open>jaccard_similarity\<close>,
  \<open>jaccard_index\<close>, \<open>dice_coefficient\<close> and \<open>overlap_coefficient\<close> return \<open>1\<close> and
  \<open>percentage_overlap\<close> returns \<open>100\<close>; on a non-empty set and the empty set all five
  return \<open>0\<close>.
\<close>

theorem identical_and_empty_sets:
  "jaccard_similarity (Some A) (Some A) = Inr 1 \<and>
   jaccard_index (Some A) (Some A) = Inr 1 \<and>
   dice_coefficient (Some A) (Some A) = Inr 1 \<and>
   overlap_coefficient (Some A) (Some A) = Inr 1 \<and>
   percentage_overlap (Some A) (Some A) = Inr 100 \<and>
   (A \<noteq> {||} \<longrightarrow>
      jaccard_similarity (Some A) (Some {||}) = Inr 0 \<and>
      jaccard_index (Some A) (Some {||}) = Inr 0 \<and>
      dice_coefficient (Some A) (Some {||}) = Inr 0 \<and>
      overlap_coefficient (Some A) (Some {||}) = Inr 0 \<and>
      percentage_overlap (Some A) (Some {||}) = Inr 0)"
  by (simp add: jaccard_similarity_def jaccard_index_def dice_coefficient_def
      overlap_coefficient_def percentage_overlap_def dispatch_eq)

theorem identical_and_empty_sets_witness:
  "{|7::int|} \<noteq> {||} \<and>
   jaccard_similarity (Some {|7::int|}) (Some {||}) = Inr 0 \<and>
   jaccard_index (Some {|7::int|}) (Some {||}) = Inr 0 \<and>
   dice_coefficient (Some {|7::int|}) (Some {||}) = Inr 0 \<and>
   overlap_coefficient (Some {|7::int|}) (Some {||}) = Inr 0 \<and>
   percentage_overlap (Some {|7::int|}) (Some {||}) = Inr 0 \<and>
   jaccard_similarity (Some {|7::int|}) (Some {|7|}) = Inr 1 \<and>
   percentage_overlap (Some {|7::int|}) (Some {|7|}) = Inr 100 \<and>
   jaccard_similarity (Some ({||} :: int fset)) (Some {||}) = Inr 1 \<and>
   percentage_overlap (Some ({||} :: int fset)) (Some {||}) = Inr 100"
  using identical_and_empty_sets [of "{|7::int|}"] identical_and_empty_sets [of "{||} :: int fset"]
  by simp

text \<open>
  Claim C6. \<open>asymmetrical_overlap A B\<close> is \<open>|A \<inter> B| / |A|\<close> for every non-empty \<open>A\<close>.
  It does not go through the zero-length dispatch: on an empty \<open>A\<close> it raises
  \<open>ZeroDivisionError\<close>, which the dispatch never returns there. The instances
  \<open>({1, 2, 3}, {2, 3})\<close> with \<open>2/3\<close> and \<open>({2, 3}, {1, 2, 3})\<close> with \<open>1\<close> follow it.
\<close>

theorem asymmetrical_overlap_ratio:
  "(A \<noteq> {||} \<longrightarrow>
      asymmetrical_overlap (Some A) (Some B) =
        Inr (of_int (len (A |\<inter>| B)) / of_int (len A))) \<and>
   asymmetrical_overlap (Some {||}) (Some B) = Inl ZeroDivisionError \<and>
   asymmetrical_overlap (Some {||}) (Some B) \<noteq>
     handle_zero_length_sets (Some {||}) (Some B) f d1 d0"
  by (auto simp: asymmetrical_overlap_def truediv_def dispatch_eq)

theorem asymmetrical_overlap_ratio_witness:
  "{|1::int, 2, 3|} \<noteq> {||} \<and> {|2::int, 3|} \<noteq> {||} \<and>
   asymmetrical_overlap (Some {|1::int, 2, 3|}) (Some {|2, 3|}) = Inr (2 / 3) \<and>
   asymmetrical_overlap (Some {|2::int, 3|}) (Some {|1, 2, 3|}) = Inr 1 \<and>
   asymmetrical_overlap (Some {||}) (Some {|2::int, 3|}) = Inl ZeroDivisionError"
  using asymmetrical_overlap_ratio [of "{|1::int, 2, 3|}" "{|2, 3|}"]
    asymmetrical_overlap_ratio [of "{|2::int, 3|}" "{|1, 2, 3|}"]
  by (simp add: len_def fcard_finsert_if fcard_fempty)

text \<open>
  Claim C7. No symmetric metric raises, whatever its inputs: each returns a value. The
  dispatch calls the overlap function only on non-empty, unequal sets (two overlap
  functions that agree there give the same dispatch result), and on non-empty sets every
  divisor of a core formula is positive: \<open>|A \<union> B|\<close>, \<open>|A| + |B|\<close>, \<open>min |A| |B|\<close> and
  \<open>|A| + |B| - |A \<inter> B|\<close>.
\<close>

theorem symmetric_metrics_never_divide_by_zero:
  "(\<exists>v. jaccard_similarity l r = Inr v) \<and>
   (\<exists>v. jaccard_index l r = Inr v) \<and>
   (\<exists>v. dice_coefficient l r = Inr v) \<and>
   (\<exists>v. overlap_coefficient l r = Inr v) \<and>
   (\<exists>v. percentage_overlap l r = Inr v) \<and>
   ((\<forall>X Y. X \<noteq> {||} \<and> Y \<noteq> {||} \<and> X \<noteq> Y \<longrightarrow> f X Y = g X Y) \<longrightarrow>
      handle_zero_length_sets l r f d1 d0 = handle_zero_length_sets l r g d1 d0) \<and>
   (A \<noteq> {||} \<and> B \<noteq> {||} \<longrightarrow>
      0 < len (A |\<union>| B) \<and> 0 < len A + len B \<and> 0 < min (len A) (len B) \<and>
      0 < len A + len B - len (A |\<inter>| B))"
proof -
  have pos: "A \<noteq> {||} \<and> B \<noteq> {||} \<longrightarrow>
      0 < len (A |\<union>| B) \<and> 0 < len A + len B \<and> 0 < min (len A) (len B) \<and>
      0 < len A + len B - len (A |\<inter>| B)"
  proof
    assume "A \<noteq> {||} \<and> B \<noteq> {||}"
    then have "0 < len A" and "0 < len B"
      by (simp_all add: len_pos)
    then show "0 < len (A |\<union>| B) \<and> 0 < len A + len B \<and> 0 < min (len A) (len B) \<and>
      0 < len A + len B - len (A |\<inter>| B)"
      using len_inter_le [of A B] by (simp add: len_union)
  qed
  have a: "\<exists>v. jaccard_similarity l r = Inr v"
    unfolding jaccard_similarity_def by (rule dispatch_Inr) (simp add: core_values)
  have b: "\<exists>v. jaccard_index l r = Inr v"
    unfolding jaccard_index_def by (rule dispatch_Inr) (simp add: core_values)
  have c: "\<exists>v. dice_coefficient l r = Inr v"
    unfolding dice_coefficient_def by (rule dispatch_Inr) (simp add: core_values)
  have d: "\<exists>v. overlap_coefficient l r = Inr v"
    unfolding overlap_coefficient_def by (rule dispatch_Inr) (simp add: core_values)
  have "\<exists>v. handle_zero_length_sets l r percentage_overlap_core 1 0 = Inr v"
    by (rule dispatch_Inr) (simp add: core_values)
  then have e: "\<exists>v. percentage_overlap l r = Inr v"
    by (auto simp: percentage_overlap_def)
  have g: "(\<forall>X Y. X \<noteq> {||} \<and> Y \<noteq> {||} \<and> X \<noteq> Y \<longrightarrow> f X Y = g X Y) \<longrightarrow>
      handle_zero_length_sets l r f d1 d0 = handle_zero_length_sets l r g d1 d0"
    by (simp add: dispatch_eq)
  show ?thesis
    using a b c d e g pos by blast
qed

theorem symmetric_metrics_never_divide_by_zero_witness:
  "(\<exists>v. jaccard_similarity None (Some {|1::int|}) = Inr v) \<and>
   (\<exists>v. jaccard_index None (Some {|1::int|}) = Inr v) \<and>
   (\<exists>v. dice_coefficient None (Some {|1::int|}) = Inr v) \<and>
   (\<exists>v. overlap_coefficient None (Some {|1::int|}) = Inr v) \<and>
   (\<exists>v. percentage_overlap None (Some {|1::int|}) = Inr v) \<and>
   handle_zero_length_sets None (Some {|1::int|}) jaccard_similarity_core 1 0 =
     handle_zero_length_sets None (Some {|1::int|}) jaccard_index_core 1 0 \<and>
   {|1::int|} \<noteq> {||} \<and> {|2::int|} \<noteq> {||} \<and>
   0 < len ({|1::int|} |\<union>| {|2|}) \<and> 0 < len {|1::int|} + len {|2::int|} \<and>
   0 < min (len {|1::int|}) (len {|2::int|}) \<and>
   0 < len {|1::int|} + len {|2::int|} - len ({|1::int|} |\<inter>| {|2|})"
  using symmetric_metrics_never_divide_by_zero
    [of None "Some {|1::int|}" jaccard_similarity_core jaccard_index_core 1 0 "{|1::int|}" "{|2::int|}"]
  by (simp add: jaccard_cores_eq)

section \<open>Properties of the pairwise overlap matrix\<close>

subsection \<open>Loops\<close>

lemma for_loop_append:
  "for_loop (xs @ ys) body s =
     (case for_loop xs body s of Inl e \<Rightarrow> Inl e | Inr s' \<Rightarrow> for_loop ys body s')"
  by (induction xs arbitrary: s) (auto split: sum.splits)

lemma for_loop_snoc:
  "for_loop (xs @ [i]) body s =
     (case for_loop xs body s of Inl e \<Rightarrow> Inl e | Inr s' \<Rightarrow> body i s')"
  by (simp add: for_loop_append split: sum.splits)

lemma for_loop_invariant:
  assumes "for_loop xs body s = Inr s'" and "I s"
    and "\<And>i t t'. i \<in> set xs \<Longrightarrow> I t \<Longrightarrow> body i t = Inr t' \<Longrightarrow> I t'"
  shows "I s'"
  using assms
proof (induction xs arbitrary: s)
  case Nil
  then show ?case by simp
next
  case (Cons i xs)
  from Cons.prems(1) obtain t where t: "body i s = Inr t" and rest: "for_loop xs body t = Inr s'"
    by (auto split: sum.splits)
  have "I t" using Cons.prems(3) [of i s t] Cons.prems(2) t by simp
  moreover have "I u'" if "j \<in> set xs" "I u" "body j u = Inr u'" for j u u'
    using Cons.prems(3) [of j u u'] that by simp
  ultimately show ?case using Cons.IH [OF rest] by blast
qed

lemma for_loop_upt_invariant:
  assumes run: "for_loop [a..<b] body s = Inr s'" and "a \<le> b" and "P a s"
    and step: "\<And>i t t'. a \<le> i \<Longrightarrow> i < b \<Longrightarrow> P i t \<Longrightarrow> body i t = Inr t' \<Longrightarrow> P (Suc i) t'"
  shows "P b s'"
proof -
  have "a \<le> k \<Longrightarrow> k \<le> b \<Longrightarrow> for_loop [a..<k] body s = Inr t \<Longrightarrow> P k t" for k t
  proof (induction k arbitrary: t)
    case 0
    then show ?case using \<open>P a s\<close> by simp
  next
    case (Suc k)
    show ?case
    proof (cases "a = Suc k")
      case True
      then show ?thesis using Suc.prems \<open>P a s\<close> by simp
    next
      case False
      then have ak: "a \<le> k" using Suc.prems by simp
      then have "[a..<Suc k] = [a..<k] @ [k]" by simp
      with Suc.prems(3) obtain u where u: "for_loop [a..<k] body s = Inr u" and b: "body k u = Inr t"
        by (auto simp: for_loop_append split: sum.splits)
      have "P k u" using Suc.IH ak Suc.prems(2) u by simp
      then show ?thesis using step [of k u t] ak Suc.prems(2) b by simp
    qed
  qed
  then show ?thesis using run \<open>a \<le> b\<close> by blast
qed

lemma for_loop_total:
  assumes "\<And>i t. i \<in> set xs \<Longrightarrow> \<exists>t'. body i t = Inr t'"
  shows "\<exists>s'. for_loop xs body s = Inr s'"
  using assms
proof (induction xs arbitrary: s)
  case Nil
  then show ?case by simp
next
  case (Cons i xs)
  then obtain t where "body i s = Inr t" by (meson list.set_intros(1))
  then show ?case using Cons by (simp add: split: sum.splits)
qed

subsection \<open>Sets of column values\<close>

lemma set_of_values_iff:
  "x |\<in>| set_of_values s b xs \<longleftrightarrow> (\<exists>i < length xs. x = object_of s b (i, xs ! i))"
  by (auto simp: set_of_values_def fset_of_list_elem in_set_enumerate_eq image_iff)

lemma set_of_values_empty [simp]: "set_of_values s b xs = {||} \<longleftrightarrow> xs = []"
proof
  assume empty: "set_of_values s b xs = {||}"
  show "xs = []"
  proof (rule ccontr)
    assume "xs \<noteq> []"
    then have "object_of s b (0, xs ! 0) |\<in>| set_of_values s b xs"
      unfolding set_of_values_iff by (intro exI [of _ 0]) simp
    then show False using empty by simp
  qed
next
  assume "xs = []"
  then show "set_of_values s b xs = {||}" by (simp add: set_of_values_def)
qed



subsection \<open>One step of the inner loop\<close>

lemma update_apply:
  "((t :: matrix)((r, c) \<mapsto> v)) (i, j) = (if i = r \<and> j = c then Some v else t (i, j))"
  by (simp add: fun_upd_def)

lemma mirror_update_apply:
  "((t :: matrix)((r, c) \<mapsto> v, (c, r) \<mapsto> v)) (i, j) =
     (if (i = r \<and> j = c) \<or> (i = c \<and> j = r) then Some v else t (i, j))"
  by (simp only: update_apply) presburger

lemma cell_step_Inr:
  "cell_step sd pid f pre r c M = Inr M' \<longleftrightarrow>
     (\<exists>v. pair_overlap sd pid f pre r c = Inr v \<and> M' = M((r, c) \<mapsto> v, (c, r) \<mapsto> v))"
  by (auto simp: cell_step_def split: sum.splits)


lemma pair_overlap_sym:
  assumes "\<And>x y. f (Some x) (Some y) = f (Some y) (Some x)"
  shows "pair_overlap sd pid f pre r c = pair_overlap sd pid f pre c r"
proof (cases "r = c")
  case True
  then show ?thesis by simp
next
  case False
  then have "(c = r) = False" and "(r = c) = False" by auto
  then show ?thesis
    using assms
    by (auto simp: pair_overlap_def list_getitem_def getitem_def Let_def
        split: sum.splits option.splits)
qed

lemma pair_overlap_value:
  assumes "r < length sd" "c < length sd" "(sd ! r) pid = Some cr" "(sd ! c) pid = Some cc"
  shows "pair_overlap sd pid f pre r c =
           f (Some (set_of_values r False (pre cr))) (Some (set_of_values c (c = r) (pre cc)))"
  using assms by (simp add: pair_overlap_def list_getitem_def getitem_def Let_def)

subsection \<open>Invariants of the two loops\<close>

text \<open>
  A property of the matrix that every mirrored write preserves holds after any number of
  rows, in both modes.
\<close>

lemma row_step_invariant:
  assumes run: "row_step sd pid f pre all r M = Inr M'" and "I M"
    and step: "\<And>r c v t. I t \<Longrightarrow> pair_overlap sd pid f pre r c = Inr v \<Longrightarrow>
           I (t((r, c) \<mapsto> v, (c, r) \<mapsto> v))"
  shows "I M'"
proof -
  define a where "a = (if \<not> all then r else 0)"
  have run': "for_loop [a..<length sd] (cell_step sd pid f pre r) M = Inr M'"
    using run by (simp add: row_step_def a_def)
  have "I t'" if "I t" and "cell_step sd pid f pre r c t = Inr t'" for c t t'
    using that step by (auto simp: cell_step_Inr)
  then show ?thesis
    using for_loop_invariant [of "[a..<length sd]" "cell_step sd pid f pre r" M M' I] run' \<open>I M\<close>
    by blast
qed

lemma rows_invariant:
  assumes run: "for_loop rows (row_step sd pid f pre all) M = Inr M'" and "I M"
    and step: "\<And>r c v t. I t \<Longrightarrow> pair_overlap sd pid f pre r c = Inr v \<Longrightarrow>
           I (t((r, c) \<mapsto> v, (c, r) \<mapsto> v))"
  shows "I M'"
proof -
  have "I t'" if "I t" and "row_step sd pid f pre all r t = Inr t'" for r t t'
    using row_step_invariant [of sd pid f pre all r t t' I] that step by blast
  then show ?thesis
    using for_loop_invariant [of rows "row_step sd pid f pre all" M M' I] run \<open>I M\<close>
    by blast
qed

lemma rows_symmetric:
  assumes run: "for_loop rows (row_step sd pid f pre all) Map.empty = Inr M"
  shows "M (i, j) = M (j, i)"
proof -
  define I where "I = (\<lambda>t :: matrix. t (i, j) = t (j, i))"
  have "I Map.empty" by (simp add: I_def)
  moreover have "I (t((r, c) \<mapsto> v, (c, r) \<mapsto> v))" if "I t" for r c v t
  proof -
    have eq: "t (i, j) = t (j, i)"
      using that by (simp add: I_def)
    show ?thesis
      unfolding I_def mirror_update_apply eq by presburger
  qed
  ultimately have "I M"
    using rows_invariant [of rows sd pid f pre all Map.empty M I] run by blast
  then show ?thesis by (simp add: I_def)
qed


lemma rows_provenance:
  assumes run: "for_loop rows (row_step sd pid f pre all) Map.empty = Inr M"
    and "M (i, j) = Some v"
  shows "pair_overlap sd pid f pre i j = Inr v \<or> pair_overlap sd pid f pre j i = Inr v"
proof -
  define I where "I = (\<lambda>t :: matrix. \<forall>w. t (i, j) = Some w \<longrightarrow>
    pair_overlap sd pid f pre i j = Inr w \<or> pair_overlap sd pid f pre j i = Inr w)"
  have "I Map.empty" by (simp add: I_def)
  moreover have "I (t((r, c) \<mapsto> v, (c, r) \<mapsto> v))"
    if "I t" and "pair_overlap sd pid f pre r c = Inr v" for r c v t
    using that unfolding I_def mirror_update_apply by (metis option.inject)
  ultimately have "I M"
    using rows_invariant [of rows sd pid f pre all Map.empty M I] run by blast
  then show ?thesis using assms(2) by (simp add: I_def)
qed

text \<open>Which cells have been written: row \<open>r\<close> writes at least the cells \<open>(r, c)\<close> with \<open>r \<le> c\<close>.\<close>

lemma row_step_defined:
  assumes run: "row_step sd pid f pre all r M = Inr M'" and r: "r < length sd"
  shows "dom M \<subseteq> dom M' \<and> (\<forall>c. r \<le> c \<and> c < length sd \<longrightarrow> (r, c) \<in> dom M')"
proof -
  define a where "a = (if \<not> all then r else 0)"
  have a: "a \<le> r" "a \<le> length sd" using r by (auto simp: a_def)
  have run': "for_loop [a..<length sd] (cell_step sd pid f pre r) M = Inr M'"
    using run by (simp add: row_step_def a_def)
  define P where "P = (\<lambda>k (t :: matrix). dom M \<subseteq> dom t \<and> (\<forall>c. a \<le> c \<and> c < k \<longrightarrow> (r, c) \<in> dom t))"
  have "P a M" by (auto simp: P_def)
  moreover have "P (Suc k) t'" if "P k t" and "cell_step sd pid f pre r k t = Inr t'" for k t t'
  proof -
    from that(2) obtain v where t': "t' = t((r, k) \<mapsto> v, (k, r) \<mapsto> v)"
      by (auto simp: cell_step_Inr)
    have "dom t \<subseteq> dom t'" "(r, k) \<in> dom t'"
      unfolding t' by (simp_all add: subset_insertI2)
    then show ?thesis using that(1) unfolding P_def less_Suc_eq by blast
  qed
  ultimately have "P (length sd) M'"
    using for_loop_upt_invariant [of a "length sd" "cell_step sd pid f pre r" M M' P] run' a(2)
    by blast
  then show ?thesis using a(1) unfolding P_def by auto
qed

lemma rows_defined_upper:
  assumes run: "for_loop [0..<m] (row_step sd pid f pre all) M0 = Inr M" and m: "m \<le> length sd"
    and "r < m" "r \<le> c" "c < length sd"
  shows "(r, c) \<in> dom M"
proof -
  define P where "P = (\<lambda>k (t :: matrix). \<forall>r c. r < k \<and> r \<le> c \<and> c < length sd \<longrightarrow> (r, c) \<in> dom t)"
  have "P 0 M0" by (simp add: P_def)
  moreover have "P (Suc k) t'"
    if "k < m" and "P k t" and "row_step sd pid f pre all k t = Inr t'" for k t t'
  proof -
    have "dom t \<subseteq> dom t' \<and> (\<forall>c. k \<le> c \<and> c < length sd \<longrightarrow> (k, c) \<in> dom t')"
      using row_step_defined [of sd pid f pre all k t t'] that m by simp
    then show ?thesis using that(2) unfolding P_def less_Suc_eq by blast
  qed
  ultimately have "P m M"
    using for_loop_upt_invariant [of 0 m "row_step sd pid f pre all" M0 M P] run by blast
  then show ?thesis using assms(3-5) unfolding P_def by blast
qed

lemma rows_defined:
  assumes run: "for_loop [0..<length sd] (row_step sd pid f pre all) Map.empty = Inr M"
    and "i < length sd" "j < length sd"
  shows "\<exists>v. M (i, j) = Some v"
proof (cases "i \<le> j")
  case True
  then have "(i, j) \<in> dom M"
    using rows_defined_upper [OF run, of i j] assms(2,3) by simp
  then show ?thesis by auto
next
  case False
  then have "(j, i) \<in> dom M"
    using rows_defined_upper [OF run, of j i] assms(2,3) by simp
  then show ?thesis using rows_symmetric [OF run, of i j] by auto
qed

subsection \<open>When the computation returns\<close>


lemma store_names_of_total:
  assumes "\<forall>s \<in> set sd. \<exists>name rest. s sid = Some (name # rest)"
  shows "\<exists>names. store_names_of sd sid = Inr names"
  using assms
  by (induction sd) (auto simp: getitem_def first_value_def split: sum.splits)

lemma cell_step_total:
  assumes "\<forall>s \<in> set sd. \<exists>col. s pid = Some col"
    and "\<And>x y. \<exists>v. f (Some x) (Some y) = Inr v"
    and "r < length sd" "c < length sd"
  shows "\<exists>M'. cell_step sd pid f pre r c M = Inr M'"
proof -
  obtain cr cc where "(sd ! r) pid = Some cr" "(sd ! c) pid = Some cc"
    using assms(1,3,4) by (meson nth_mem)
  then have "pair_overlap sd pid f pre r c =
      f (Some (set_of_values r False (pre cr))) (Some (set_of_values c (c = r) (pre cc)))"
    using assms(3,4) by (simp add: pair_overlap_value)
  then show ?thesis
    using assms(2) [of "set_of_values r False (pre cr)" "set_of_values c (c = r) (pre cc)"]
    by (auto simp: cell_step_Inr)
qed

lemma rows_total:
  assumes "\<forall>s \<in> set sd. \<exists>col. s pid = Some col"
    and "\<And>x y. \<exists>v. f (Some x) (Some y) = Inr v"
  shows "\<exists>M. for_loop [0..<length sd] (row_step sd pid f pre all) M0 = Inr M"
proof (rule for_loop_total)
  fix r t
  assume "r \<in> set [0..<length sd]"
  then have r: "r < length sd" by simp
  show "\<exists>t'. row_step sd pid f pre all r t = Inr t'"
    unfolding row_step_def Let_def
  proof (rule for_loop_total)
    fix c u
    assume "c \<in> set [if \<not> all then r else 0..<length sd]"
    then have "c < length sd" by simp
    then show "\<exists>u'. cell_step sd pid f pre r c u = Inr u'"
      using cell_step_total [of sd pid f r c pre u] assms r by blast
  qed
qed

subsection \<open>The default metric\<close>

lemma jaccard_index_Inr: "\<exists>v. jaccard_index l r = Inr v"
  unfolding jaccard_index_def by (rule dispatch_Inr) (simp add: core_values)

lemma jaccard_index_sym: "jaccard_index l r = jaccard_index r l"
  using cores_sym(2) [of "or_empty l" "or_empty r"]
  by (auto simp: jaccard_index_def dispatch_eq)

lemma jaccard_index_same: "jaccard_index (Some A) (Some A) = Inr 1"
  by (simp add: jaccard_index_def dispatch_eq)




subsection \<open>Full mode against triangular mode\<close>

text \<open>
  In full mode row \<open>r\<close> first visits the columns below \<open>r\<close>. When the overlap function is
  symmetric these steps write again what the earlier rows wrote, so they leave the matrix
  as it is, and the rest of the row is the row of the triangular mode.
\<close>

lemma full_row_prefix_noop:
  assumes "\<And>c. c < k \<Longrightarrow>
      \<exists>v. pair_overlap sd pid f pre r c = Inr v \<and> M (r, c) = Some v \<and> M (c, r) = Some v"
  shows "for_loop [0..<k] (cell_step sd pid f pre r) M = Inr M"
  using assms
proof (induction k)
  case 0
  then show ?case by simp
next
  case (Suc k)
  have prefix: "for_loop [0..<k] (cell_step sd pid f pre r) M = Inr M"
    using Suc by simp
  obtain v where v: "pair_overlap sd pid f pre r k = Inr v" "M (r, k) = Some v" "M (k, r) = Some v"
    using Suc.prems [of k] by auto
  have "M((r, k) \<mapsto> v, (k, r) \<mapsto> v) = M"
    using v(2,3) by (simp add: fun_upd_idem)
  then have "cell_step sd pid f pre r k M = Inr M"
    using v(1) by (simp add: cell_step_def)
  then show ?case
    using prefix by (simp add: for_loop_snoc)
qed

lemma row_step_full_eq_triangular:
  assumes "r \<le> length sd"
    and "\<And>c. c < r \<Longrightarrow>
      \<exists>v. pair_overlap sd pid f pre r c = Inr v \<and> M (r, c) = Some v \<and> M (c, r) = Some v"
  shows "row_step sd pid f pre True r M = row_step sd pid f pre False r M"
proof -
  have "[0..<length sd] = [0..<r] @ [r..<length sd]"
    using assms(1) by (metis le_add_diff_inverse upt_add_eq_append zero_le)
  then show ?thesis
    using full_row_prefix_noop [of r sd pid f pre r M] assms(2)
    by (simp add: row_step_def for_loop_append)
qed

lemma rows_full_eq_triangular:
  assumes sym: "\<And>x y. f (Some x) (Some y) = f (Some y) (Some x)" and "m \<le> length sd"
  shows "for_loop [0..<m] (row_step sd pid f pre True) Map.empty =
         for_loop [0..<m] (row_step sd pid f pre False) Map.empty"
  using assms(2)
proof (induction m)
  case 0
  then show ?case by simp
next
  case (Suc m)
  then have IH: "for_loop [0..<m] (row_step sd pid f pre True) Map.empty =
         for_loop [0..<m] (row_step sd pid f pre False) Map.empty"
    and m: "m < length sd" by simp_all
  show ?case
  proof (cases "for_loop [0..<m] (row_step sd pid f pre False) Map.empty")
    case (Inl e)
    then show ?thesis using IH by (simp add: for_loop_snoc)
  next
    case (Inr M)
    have "\<exists>v. pair_overlap sd pid f pre m c = Inr v \<and> M (m, c) = Some v \<and> M (c, m) = Some v"
      if "c < m" for c
    proof -
      have "(c, m) \<in> dom M"
        using rows_defined_upper [OF Inr, of c m] that m by simp
      then obtain v where v: "M (c, m) = Some v" by auto
      then have "M (m, c) = Some v"
        using rows_symmetric [OF Inr, of m c] by simp
      moreover have "pair_overlap sd pid f pre m c = Inr v"
        using rows_provenance [OF Inr v] pair_overlap_sym [of f sd pid pre m c] sym by auto
      ultimately show ?thesis using v by simp
    qed
    then have "row_step sd pid f pre True m M = row_step sd pid f pre False m M"
      using row_step_full_eq_triangular [of m sd pid f pre M] m by simp
    then show ?thesis using IH Inr by (simp add: for_loop_snoc)
  qed
qed

subsection \<open>The empty-set policy of the metrics\<close>

lemma dispatch_policy:
  assumes "handle_zero_length_sets (Some A) (Some B) core d1 d0 = Inr v"
  shows "(A = {||} \<and> B = {||} \<longrightarrow> v = d1) \<and> ((A = {||}) \<noteq> (B = {||}) \<longrightarrow> v = d0)"
proof (intro conjI impI)
  assume "A = {||} \<and> B = {||}"
  then show "v = d1" using assms by (simp add: dispatch_eq)
next
  assume "(A = {||}) \<noteq> (B = {||})"
  then have "A \<noteq> B" and "A = {||} \<or> B = {||}" by auto
  then have "handle_zero_length_sets (Some A) (Some B) core d1 d0 = Inr d0"
    by (simp add: dispatch_eq)
  then show "v = d0" using assms by simp
qed

lemma percentage_overlap_policy:
  assumes "percentage_overlap (Some A) (Some B) = Inr v"
  shows "(A = {||} \<and> B = {||} \<longrightarrow> v = 100) \<and> ((A = {||}) \<noteq> (B = {||}) \<longrightarrow> v = 0)"
proof -
  obtain w where w: "handle_zero_length_sets (Some A) (Some B) percentage_overlap_core 1 0 = Inr w"
    and v: "v = w * 100"
    using assms by (auto simp: percentage_overlap_def split: sum.splits)
  show ?thesis
    using dispatch_policy [OF w] v by auto
qed

lemma metrics_Inr:
  "\<exists>v. jaccard_similarity l r = Inr v"
  "\<exists>v. jaccard_index l r = Inr v"
  "\<exists>v. dice_coefficient l r = Inr v"
  "\<exists>v. overlap_coefficient l r = Inr v"
  "\<exists>v. percentage_overlap l r = Inr v"
proof -
  show "\<exists>v. jaccard_similarity l r = Inr v"
    unfolding jaccard_similarity_def by (rule dispatch_Inr) (simp add: core_values)
  show "\<exists>v. jaccard_index l r = Inr v"
    by (rule jaccard_index_Inr)
  show "\<exists>v. dice_coefficient l r = Inr v"
    unfolding dice_coefficient_def by (rule dispatch_Inr) (simp add: core_values)
  show "\<exists>v. overlap_coefficient l r = Inr v"
    unfolding overlap_coefficient_def by (rule dispatch_Inr) (simp add: core_values)
  have "\<exists>v. handle_zero_length_sets l r percentage_overlap_core 1 0 = Inr v"
    by (rule dispatch_Inr) (simp add: core_values)
  then show "\<exists>v. percentage_overlap l r = Inr v"
    by (auto simp: percentage_overlap_def)
qed

lemma default_metrics_Inr:
  assumes "f \<in> {jaccard_similarity, jaccard_index, dice_coefficient, overlap_coefficient}"
  shows "\<exists>v. f l r = Inr v"
proof -
  have "f = jaccard_similarity \<or> f = jaccard_index \<or> f = dice_coefficient \<or>
      f = overlap_coefficient"
    using assms by simp
  then show ?thesis
    by (elim disjE) (simp_all only: metrics_Inr)
qed

lemma default_metrics_policy:
  assumes "f \<in> {jaccard_similarity, jaccard_index, dice_coefficient, overlap_coefficient}"
    and v: "f (Some A) (Some B) = Inr v"
  shows "(A = {||} \<and> B = {||} \<longrightarrow> v = 1) \<and> ((A = {||}) \<noteq> (B = {||}) \<longrightarrow> v = 0)"
proof -
  have "f = jaccard_similarity \<or> f = jaccard_index \<or> f = dice_coefficient \<or>
      f = overlap_coefficient"
    using assms(1) by simp
  then obtain core where "handle_zero_length_sets (Some A) (Some B) core 1 0 = Inr v"
    using v
    unfolding jaccard_similarity_def jaccard_index_def dice_coefficient_def
      overlap_coefficient_def
    by (elim disjE) (simp_all add: jaccard_similarity_def jaccard_index_def
        dice_coefficient_def overlap_coefficient_def)
  then show ?thesis by (rule dispatch_policy)
qed

text \<open>
  What the matrix holds for two stores when the overlap function follows an empty-set
  policy with the values \<open>e1\<close> (both sets empty) and \<open>e0\<close> (exactly one set empty).
\<close>

lemma rows_policy:
  assumes run: "for_loop [0..<length sd] (row_step sd pid f pre all) Map.empty = Inr M"
    and pol: "\<And>A B v. f (Some A) (Some B) = Inr v \<Longrightarrow>
      (A = {||} \<and> B = {||} \<longrightarrow> v = e1) \<and> ((A = {||}) \<noteq> (B = {||}) \<longrightarrow> v = e0)"
    and ij: "i < length sd" "j < length sd"
    and cols: "(sd ! i) pid = Some ci" "(sd ! j) pid = Some cj"
  shows "(pre ci = [] \<and> pre cj = [] \<longrightarrow> M (i, j) = Some e1) \<and>
         ((pre ci = []) \<noteq> (pre cj = []) \<longrightarrow> M (i, j) = Some e0)"
proof -
  obtain v where v: "M (i, j) = Some v"
    using rows_defined [OF run ij] by blast
  have "(pre ci = [] \<and> pre cj = [] \<longrightarrow> v = e1) \<and> ((pre ci = []) \<noteq> (pre cj = []) \<longrightarrow> v = e0)"
    using rows_provenance [OF run v]
  proof
    assume "pair_overlap sd pid f pre i j = Inr v"
    then have "f (Some (set_of_values i False (pre ci)))
        (Some (set_of_values j (j = i) (pre cj))) = Inr v"
      using pair_overlap_value [OF ij cols, of f pre] by simp
    from pol [OF this] show ?thesis by simp
  next
    assume "pair_overlap sd pid f pre j i = Inr v"
    then have "f (Some (set_of_values j False (pre cj)))
        (Some (set_of_values i (i = j) (pre ci))) = Inr v"
      using pair_overlap_value [OF ij(2,1) cols(2,1), of f pre] by simp
    from pol [OF this] show ?thesis by auto
  qed
  then show ?thesis using v by simp
qed

lemma driver_policy:
  assumes wf: "\<forall>s \<in> set sd. (\<exists>name rest. s sid = Some (name # rest)) \<and> (\<exists>col. s pid = Some col)"
    and total: "\<And>x y. \<exists>v. f (Some x) (Some y) = Inr v"
    and pol: "\<And>A B v. f (Some A) (Some B) = Inr v \<Longrightarrow>
      (A = {||} \<and> B = {||} \<longrightarrow> v = e1) \<and> ((A = {||}) \<noteq> (B = {||}) \<longrightarrow> v = e0)"
  shows "\<exists>result. calculate_overlap_for_stores sd sid pid f pre all = Inr result \<and>
      (\<forall>i j ci cj. i < length sd \<and> j < length sd \<and>
          (sd ! i) pid = Some ci \<and> (sd ! j) pid = Some cj \<longrightarrow>
          (pre ci = [] \<and> pre cj = [] \<longrightarrow> cells result (i, j) = Some e1) \<and>
          ((pre ci = []) \<noteq> (pre cj = []) \<longrightarrow> cells result (i, j) = Some e0))"
proof -
  obtain names where names: "store_names_of sd sid = Inr names"
    using store_names_of_total [of sd sid] wf by blast
  obtain M where run: "for_loop [0..<length sd] (row_step sd pid f pre all) Map.empty = Inr M"
    using rows_total [of sd pid f pre all Map.empty] wf total by blast
  let ?result = "\<lparr>index = names, columns = names, cells = M\<rparr>"
  have "calculate_overlap_for_stores sd sid pid f pre all = Inr ?result"
    using names run by (simp add: calculate_overlap_for_stores_def)
  moreover have "\<forall>i j ci cj. i < length sd \<and> j < length sd \<and>
          (sd ! i) pid = Some ci \<and> (sd ! j) pid = Some cj \<longrightarrow>
          (pre ci = [] \<and> pre cj = [] \<longrightarrow> cells ?result (i, j) = Some e1) \<and>
          ((pre ci = []) \<noteq> (pre cj = []) \<longrightarrow> cells ?result (i, j) = Some e0)"
    using rows_policy [OF run pol] by simp
  ultimately show ?thesis by blast
qed

lemma single_store:
  assumes "store sid = Some (name # rest)" and "store pid = Some col"
    and "f (Some (set_of_values 0 False (pre col))) (Some (set_of_values 0 True (pre col))) = Inr v"
  shows "calculate_overlap_for_stores [store] sid pid f pre all =
           Inr \<lparr>index = [name], columns = [name], cells = [(0, 0) \<mapsto> v]\<rparr>"
  using assms
  by (simp add: calculate_overlap_for_stores_def getitem_def first_value_def row_step_def
      cell_step_def pair_overlap_def list_getitem_def)

subsection \<open>Two stores, evaluated\<close>

lemmas eval_simps = calculate_overlap_for_stores_def getitem_def first_value_def row_step_def
  cell_step_def pair_overlap_def list_getitem_def set_of_values_def jaccard_index_def dispatch_eq
  jaccard_index_core_def truediv_def len_def fcard_finsert_if fcard_fempty fempty_not_finsert

lemma example_matrix_triangular: "calculate_overlap_for_stores
     [[''store'' \<mapsto> [Val 10, Val 10], ''ean'' \<mapsto> [Val 1, Val (2 :: int)]],
      [''store'' \<mapsto> [Val 20], ''ean'' \<mapsto> [Val 2]]]
     ''store'' ''ean'' jaccard_index (\<lambda>series. series) False =
   Inr \<lparr>index = [Val 10, Val 20], columns = [Val 10, Val 20],
        cells = [(0, 0) \<mapsto> 1, (0, 1) \<mapsto> 1 / 2, (1, 0) \<mapsto> 1 / 2, (1, 1) \<mapsto> 1]\<rparr>"
  by (simp add: eval_simps)

lemma example_matrix_full: "calculate_overlap_for_stores
     [[''store'' \<mapsto> [Val 10, Val 10], ''ean'' \<mapsto> [Val 1, Val (2 :: int)]],
      [''store'' \<mapsto> [Val 20], ''ean'' \<mapsto> [Val 2]]]
     ''store'' ''ean'' jaccard_index (\<lambda>series. series) True =
   Inr \<lparr>index = [Val 10, Val 20], columns = [Val 10, Val 20],
        cells = [(0, 0) \<mapsto> 1, (1, 0) \<mapsto> 1 / 2, (0, 1) \<mapsto> 1 / 2, (1, 1) \<mapsto> 1]\<rparr>"
  by (simp add: eval_simps)

subsection \<open>The claims about the matrix\<close>




text \<open>
  Claim C9 says that an empty or missing identifier column never makes
  \<open>calculate_overlap_for_stores\<close> fail. A store frame with no rows raises \<open>IndexError\<close>
  when the store name is read, and a frame without the product column raises \<open>KeyError\<close>.
  Where the policy does apply, the score of two empty groups is the exact-match value of
  the metric in use, which is \<open>100.0\<close> and not \<open>1.0\<close> under \<open>percentage_overlap\<close>.
\<close>

theorem empty_store_frame_raises:
  "calculate_overlap_for_stores [[''store'' \<mapsto> [], ''ean'' \<mapsto> ([] :: int cell list)]]
     ''store'' ''ean'' jaccard_index (\<lambda>series. series) False = Inl IndexError \<and>
   calculate_overlap_for_stores [[''store'' \<mapsto> [Val (10 :: int)]]]
     ''store'' ''ean'' jaccard_index (\<lambda>series. series) False = Inl KeyError \<and>
   calculate_overlap_for_stores
     [[''store'' \<mapsto> [Val (10 :: int)], ''ean'' \<mapsto> [NaN]],
      [''store'' \<mapsto> [Val 20], ''ean'' \<mapsto> [NaN]]]
     ''store'' ''ean'' percentage_overlap (filter (\<lambda>v. v \<noteq> NaN)) False =
   Inr \<lparr>index = [Val 10, Val 20], columns = [Val 10, Val 20],
        cells = [(0, 0) \<mapsto> 100, (0, 1) \<mapsto> 100, (1, 0) \<mapsto> 100, (1, 1) \<mapsto> 100]\<rparr>"
  by (simp add: eval_simps percentage_overlap_def)

text \<open>
  Claim C9, amended. When every store frame has the product column and a store identifier
  column with at least one value, \<open>calculate_overlap_for_stores\<close> returns under each
  symmetric metric, and a store whose preprocessed product column is empty scores the
  exact-match value against another such store and \<open>0\<close> against a store with a
  non-empty one: the exact-match value is \<open>1\<close> under \<open>jaccard_similarity\<close>,
  \<open>jaccard_index\<close>, \<open>dice_coefficient\<close> and \<open>overlap_coefficient\<close>, and \<open>100\<close> under
  \<open>percentage_overlap\<close>. With any overlap function an empty list of stores gives the
  empty matrix, and a single such store gives a 1 by 1 matrix whenever the overlap
  function returns on the two sets read from it.
\<close>

theorem empty_groups_follow_empty_set_policy:
  "((\<forall>s \<in> set store_data.
        (\<exists>name rest. s store_id_column = Some (name # rest)) \<and>
        (\<exists>col. s product_id_column = Some col)) \<longrightarrow>
      (overlap_function \<in>
           {jaccard_similarity, jaccard_index, dice_coefficient, overlap_coefficient} \<longrightarrow>
         (\<exists>result. calculate_overlap_for_stores store_data store_id_column product_id_column
              overlap_function preprocess_function calculate_all_cells = Inr result \<and>
            (\<forall>i j ci cj. i < length store_data \<and> j < length store_data \<and>
                (store_data ! i) product_id_column = Some ci \<and>
                (store_data ! j) product_id_column = Some cj \<longrightarrow>
                (preprocess_function ci = [] \<and> preprocess_function cj = [] \<longrightarrow>
                   cells result (i, j) = Some 1) \<and>
                ((preprocess_function ci = []) \<noteq> (preprocess_function cj = []) \<longrightarrow>
                   cells result (i, j) = Some 0)))) \<and>
      (\<exists>result. calculate_overlap_for_stores store_data store_id_column product_id_column
           percentage_overlap preprocess_function calculate_all_cells = Inr result \<and>
         (\<forall>i j ci cj. i < length store_data \<and> j < length store_data \<and>
             (store_data ! i) product_id_column = Some ci \<and>
             (store_data ! j) product_id_column = Some cj \<longrightarrow>
             (preprocess_function ci = [] \<and> preprocess_function cj = [] \<longrightarrow>
                cells result (i, j) = Some 100) \<and>
             ((preprocess_function ci = []) \<noteq> (preprocess_function cj = []) \<longrightarrow>
                cells result (i, j) = Some 0)))) \<and>
   calculate_overlap_for_stores [] store_id_column product_id_column any_function
       preprocess_function calculate_all_cells =
     Inr \<lparr>index = [], columns = [], cells = Map.empty\<rparr> \<and>
   (store store_id_column = Some (name # rest) \<and> store product_id_column = Some col \<and>
    any_function (Some (set_of_values 0 False (preprocess_function col)))
      (Some (set_of_values 0 True (preprocess_function col))) = Inr v \<longrightarrow>
      calculate_overlap_for_stores [store] store_id_column product_id_column any_function
          preprocess_function calculate_all_cells =
        Inr \<lparr>index = [name], columns = [name], cells = [(0, 0) \<mapsto> v]\<rparr>)"
proof (intro conjI impI)
  assume wf: "\<forall>s \<in> set store_data.
        (\<exists>name rest. s store_id_column = Some (name # rest)) \<and>
        (\<exists>col. s product_id_column = Some col)"
    and f: "overlap_function \<in>
           {jaccard_similarity, jaccard_index, dice_coefficient, overlap_coefficient}"
  have total: "\<exists>v. overlap_function (Some x) (Some y) = Inr v" for x y
    using f by (rule default_metrics_Inr)
  have pol: "(A = {||} \<and> B = {||} \<longrightarrow> v = 1) \<and> ((A = {||}) \<noteq> (B = {||}) \<longrightarrow> v = 0)"
    if "overlap_function (Some A) (Some B) = Inr v" for A B v
    using f that by (rule default_metrics_policy)
  show "\<exists>result. calculate_overlap_for_stores store_data store_id_column product_id_column
              overlap_function preprocess_function calculate_all_cells = Inr result \<and>
            (\<forall>i j ci cj. i < length store_data \<and> j < length store_data \<and>
                (store_data ! i) product_id_column = Some ci \<and>
                (store_data ! j) product_id_column = Some cj \<longrightarrow>
                (preprocess_function ci = [] \<and> preprocess_function cj = [] \<longrightarrow>
                   cells result (i, j) = Some 1) \<and>
                ((preprocess_function ci = []) \<noteq> (preprocess_function cj = []) \<longrightarrow>
                   cells result (i, j) = Some 0))"
    using driver_policy [of store_data store_id_column product_id_column overlap_function
        1 0 preprocess_function calculate_all_cells, OF wf total pol]
    by simp
next
  assume wf: "\<forall>s \<in> set store_data.
        (\<exists>name rest. s store_id_column = Some (name # rest)) \<and>
        (\<exists>col. s product_id_column = Some col)"
  have total: "\<exists>v. percentage_overlap (Some x) (Some y) = Inr v"
    for x y :: "'b obj fset"
    by (rule metrics_Inr(5))
  have pol: "(A = {||} \<and> B = {||} \<longrightarrow> v = 100) \<and> ((A = {||}) \<noteq> (B = {||}) \<longrightarrow> v = 0)"
    if "percentage_overlap (Some A) (Some B) = Inr v" for A B :: "'b obj fset" and v
    using that by (rule percentage_overlap_policy)
  show "\<exists>result. calculate_overlap_for_stores store_data store_id_column product_id_column
           percentage_overlap preprocess_function calculate_all_cells = Inr result \<and>
         (\<forall>i j ci cj. i < length store_data \<and> j < length store_data \<and>
             (store_data ! i) product_id_column = Some ci \<and>
             (store_data ! j) product_id_column = Some cj \<longrightarrow>
             (preprocess_function ci = [] \<and> preprocess_function cj = [] \<longrightarrow>
                cells result (i, j) = Some 100) \<and>
             ((preprocess_function ci = []) \<noteq> (preprocess_function cj = []) \<longrightarrow>
                cells result (i, j) = Some 0))"
    using driver_policy [of store_data store_id_column product_id_column percentage_overlap
        100 0 preprocess_function calculate_all_cells, OF wf total pol]
    by simp
next
  show "calculate_overlap_for_stores [] store_id_column product_id_column any_function
       preprocess_function calculate_all_cells =
     Inr \<lparr>index = [], columns = [], cells = Map.empty\<rparr>"
    by (simp add: calculate_overlap_for_stores_def)
next
  assume h: "store store_id_column = Some (name # rest) \<and> store product_id_column = Some col \<and>
    any_function (Some (set_of_values 0 False (preprocess_function col)))
      (Some (set_of_values 0 True (preprocess_function col))) = Inr v"
  show "calculate_overlap_for_stores [store] store_id_column product_id_column any_function
          preprocess_function calculate_all_cells =
        Inr \<lparr>index = [name], columns = [name], cells = [(0, 0) \<mapsto> v]\<rparr>"
    using single_store [of store store_id_column name rest product_id_column col any_function
        preprocess_function v calculate_all_cells] h
    by simp
qed

theorem empty_groups_follow_empty_set_policy_witness:
  "dice_coefficient \<in> {jaccard_similarity, jaccard_index, dice_coefficient,
      overlap_coefficient :: int obj fset option \<Rightarrow> int obj fset option \<Rightarrow> error + rat} \<and>
   (\<exists>result.
      calculate_overlap_for_stores
        [[''store'' \<mapsto> [Val 10], ''ean'' \<mapsto> [Val (1 :: int)]],
         [''store'' \<mapsto> [Val 20], ''ean'' \<mapsto> [NaN]],
         [''store'' \<mapsto> [Val 30], ''ean'' \<mapsto> [NaN]]]
        ''store'' ''ean'' dice_coefficient (filter (\<lambda>v. v \<noteq> NaN)) False = Inr result \<and>
      cells result (1, 2) = Some 1 \<and> cells result (0, 1) = Some 0 \<and>
      cells result (2, 0) = Some 0) \<and>
   (\<exists>result.
      calculate_overlap_for_stores
        [[''store'' \<mapsto> [Val 10], ''ean'' \<mapsto> [Val (1 :: int)]],
         [''store'' \<mapsto> [Val 20], ''ean'' \<mapsto> [NaN]],
         [''store'' \<mapsto> [Val 30], ''ean'' \<mapsto> [NaN]]]
        ''store'' ''ean'' percentage_overlap (filter (\<lambda>v. v \<noteq> NaN)) False = Inr result \<and>
      cells result (1, 2) = Some 100 \<and> cells result (0, 1) = Some 0) \<and>
   calculate_overlap_for_stores ([] :: int cell frame list) ''store'' ''ean''
     (asymmetrical_overlap :: int obj fset option \<Rightarrow> int obj fset option \<Rightarrow> error + rat)
     (\<lambda>series. series) False =
     Inr \<lparr>index = [], columns = [], cells = Map.empty\<rparr> \<and>
   calculate_overlap_for_stores [[''store'' \<mapsto> [Val 10], ''ean'' \<mapsto> [Val (1 :: int)]]]
     ''store'' ''ean'' jaccard_index (\<lambda>series. series) False =
     Inr \<lparr>index = [Val 10], columns = [Val 10], cells = [(0, 0) \<mapsto> 1]\<rparr>"
proof -
  let ?sd = "[[''store'' \<mapsto> [Val 10], ''ean'' \<mapsto> [Val (1 :: int)]],
         [''store'' \<mapsto> [Val 20], ''ean'' \<mapsto> [NaN]],
         [''store'' \<mapsto> [Val 30], ''ean'' \<mapsto> [NaN]]]"
  let ?pre = "filter (\<lambda>v :: int cell. v \<noteq> NaN)"
  have wf: "\<forall>s \<in> set ?sd. (\<exists>name rest. s ''store'' = Some (name # rest)) \<and>
      (\<exists>col. s ''ean'' = Some col)"
    by simp
  have mem: "dice_coefficient \<in> {jaccard_similarity, jaccard_index, dice_coefficient,
      overlap_coefficient :: int obj fset option \<Rightarrow> int obj fset option \<Rightarrow> error + rat}"
    by simp
  note T = empty_groups_follow_empty_set_policy [where store_id_column = "''store''"
      and product_id_column = "''ean''" and calculate_all_cells = False]
  note T1 = T [where store_data = ?sd and preprocess_function = ?pre
      and overlap_function = dice_coefficient, THEN conjunct1, THEN mp, OF wf]
  obtain result where run: "calculate_overlap_for_stores ?sd ''store'' ''ean''
        dice_coefficient ?pre False = Inr result"
    and pol: "\<And>i j ci cj. i < length ?sd \<and> j < length ?sd \<and>
             (?sd ! i) ''ean'' = Some ci \<and> (?sd ! j) ''ean'' = Some cj \<Longrightarrow>
             (?pre ci = [] \<and> ?pre cj = [] \<longrightarrow> cells result (i, j) = Some 1) \<and>
             ((?pre ci = []) \<noteq> (?pre cj = []) \<longrightarrow> cells result (i, j) = Some 0)"
    using T1 [THEN conjunct1, THEN mp, OF mem] by blast
  have c12: "cells result (1, 2) = Some 1"
    using pol [of 1 2 "[NaN]" "[NaN]"] by simp
  have c01: "cells result (0, 1) = Some 0"
    using pol [of 0 1 "[Val 1]" "[NaN]"] by simp
  have c20: "cells result (2, 0) = Some 0"
    using pol [of 2 0 "[NaN]" "[Val 1]"] by simp
  have dice: "\<exists>result. calculate_overlap_for_stores ?sd ''store'' ''ean''
        dice_coefficient ?pre False = Inr result \<and>
      cells result (1, 2) = Some 1 \<and> cells result (0, 1) = Some 0 \<and>
      cells result (2, 0) = Some 0"
    using run c12 c01 c20 by blast
  obtain result' where run': "calculate_overlap_for_stores ?sd ''store'' ''ean''
        percentage_overlap ?pre False = Inr result'"
    and pol': "\<And>i j ci cj. i < length ?sd \<and> j < length ?sd \<and>
             (?sd ! i) ''ean'' = Some ci \<and> (?sd ! j) ''ean'' = Some cj \<Longrightarrow>
             (?pre ci = [] \<and> ?pre cj = [] \<longrightarrow> cells result' (i, j) = Some 100) \<and>
             ((?pre ci = []) \<noteq> (?pre cj = []) \<longrightarrow> cells result' (i, j) = Some 0)"
    using T1 [THEN conjunct2] by blast
  have p12: "cells result' (1, 2) = Some 100"
    using pol' [of 1 2 "[NaN]" "[NaN]"] by simp
  have p01: "cells result' (0, 1) = Some 0"
    using pol' [of 0 1 "[Val 1]" "[NaN]"] by simp
  have perc: "\<exists>result. calculate_overlap_for_stores ?sd ''store'' ''ean''
        percentage_overlap ?pre False = Inr result \<and>
      cells result (1, 2) = Some 100 \<and> cells result (0, 1) = Some 0"
    using run' p12 p01 by blast
  have e: "calculate_overlap_for_stores ([] :: int cell frame list) ''store'' ''ean''
     (asymmetrical_overlap :: int obj fset option \<Rightarrow> int obj fset option \<Rightarrow> error + rat)
     (\<lambda>series. series) False =
     Inr \<lparr>index = [], columns = [], cells = Map.empty\<rparr>"
    using T [where any_function = asymmetrical_overlap
        and preprocess_function = "\<lambda>series. series", THEN conjunct2, THEN conjunct1]
    by simp
  have s: "calculate_overlap_for_stores [[''store'' \<mapsto> [Val 10], ''ean'' \<mapsto> [Val (1 :: int)]]]
     ''store'' ''ean'' jaccard_index (\<lambda>series. series) False =
     Inr \<lparr>index = [Val 10], columns = [Val 10], cells = [(0, 0) \<mapsto> 1]\<rparr>"
    using T [where store = "[''store'' \<mapsto> [Val 10], ''ean'' \<mapsto> [Val (1 :: int)]]"
        and name = "Val 10" and rest = "[]" and col = "[Val 1]"
        and any_function = jaccard_index and v = 1
        and preprocess_function = "\<lambda>series. series", THEN conjunct2, THEN conjunct2]
    by (simp add: set_of_values_def jaccard_index_same)
  show ?thesis
    by (intro conjI mem dice perc e s)
qed

text \<open>
  Claim C10. For a symmetric overlap function, \<open>calculate_overlap_for_stores\<close> gives the
  same result (the same matrix, or the same exception) with \<open>calculate_all_cells = True\<close>
  as with \<open>calculate_all_cells = False\<close>, for every list of stores, columns and
  preprocessing function.
\<close>

theorem full_matrix_equals_triangular:
  assumes "\<forall>x y. overlap_function (Some x) (Some y) = overlap_function (Some y) (Some x)"
  shows "calculate_overlap_for_stores store_data store_id_column product_id_column
           overlap_function preprocess_function True =
         calculate_overlap_for_stores store_data store_id_column product_id_column
           overlap_function preprocess_function False"
proof -
  have "for_loop [0..<length store_data]
          (row_step store_data product_id_column overlap_function preprocess_function True)
          Map.empty =
        for_loop [0..<length store_data]
          (row_step store_data product_id_column overlap_function preprocess_function False)
          Map.empty"
    using rows_full_eq_triangular [of overlap_function "length store_data" store_data
        product_id_column preprocess_function] assms by simp
  then show ?thesis
    unfolding calculate_overlap_for_stores_def by (rule arg_cong)
qed

theorem full_matrix_equals_triangular_witness:
  "(\<forall>x y :: int obj fset. jaccard_index (Some x) (Some y) = jaccard_index (Some y) (Some x)) \<and>
   calculate_overlap_for_stores
     [[''store'' \<mapsto> [Val 10, Val 10], ''ean'' \<mapsto> [Val 1, Val (2 :: int)]],
      [''store'' \<mapsto> [Val 20], ''ean'' \<mapsto> [Val 2]]]
     ''store'' ''ean'' jaccard_index (\<lambda>series. series) True =
   calculate_overlap_for_stores
     [[''store'' \<mapsto> [Val 10, Val 10], ''ean'' \<mapsto> [Val 1, Val (2 :: int)]],
      [''store'' \<mapsto> [Val 20], ''ean'' \<mapsto> [Val 2]]]
     ''store'' ''ean'' jaccard_index (\<lambda>series. series) False \<and>
   calculate_overlap_for_stores
     [[''store'' \<mapsto> [Val 10, Val 10], ''ean'' \<mapsto> [Val 1, Val (2 :: int)]],
      [''store'' \<mapsto> [Val 20], ''ean'' \<mapsto> [Val 2]]]
     ''store'' ''ean'' jaccard_index (\<lambda>series. series) False =
   Inr \<lparr>index = [Val 10, Val 20], columns = [Val 10, Val 20],
        cells = [(0, 0) \<mapsto> 1, (0, 1) \<mapsto> 1 / 2, (1, 0) \<mapsto> 1 / 2, (1, 1) \<mapsto> 1]\<rparr>"
proof -
  have sym: "\<forall>x y :: int obj fset.
      jaccard_index (Some x) (Some y) = jaccard_index (Some y) (Some x)"
    by (simp add: jaccard_index_sym)
  show ?thesis
    using sym
      full_matrix_equals_triangular [OF sym,
        of "[[''store'' \<mapsto> [Val 10, Val 10], ''ean'' \<mapsto> [Val 1, Val (2 :: int)]],
             [''store'' \<mapsto> [Val 20], ''ean'' \<mapsto> [Val 2]]]"
           "''store''" "''ean''" "\<lambda>series. series"]
      example_matrix_triangular
    by blast
qed

end
